theory Spec2Isabelle
  imports Main "HOL-Library.Char_ord" "HOL-Library.List_Lexorder"
    "HOL-Library.Product_Lexorder" "HOL-Library.Multiset"
begin

section \<open>The task model (pkg/tasks)\<close>

text \<open>
  A task as the Go struct declares it. \<open>Payload\<close> is an \<open>interface{}\<close> that the queue never
  inspects; it is kept as the JSON text of the value. \<open>CreatedAt\<close> is kept as nanoseconds
  since the epoch. \<open>RetryCount\<close> and \<open>Priority\<close> are Go \<open>int\<close>s (64 bit); they are modelled
  as \<open>int\<close> with the wrap-around written out where the code does arithmetic on them.
\<close>

record task =
  ID :: string
  Type :: string
  Payload :: string
  CreatedAt :: int
  RetryCount :: int
  Priority :: int

definition PriorityLow :: int where "PriorityLow = 0"
definition PriorityDefault :: int where "PriorityDefault = 1"
definition PriorityHigh :: int where "PriorityHigh = 2"

text \<open>
  \<open>encoding/json\<close> is a library and is taken as a parameter: \<open>marshal\<close> is
  \<open>json.Marshal\<close> on a task (\<open>None\<close> when it returns an error) and \<open>parse\<close> is
  \<open>json.Unmarshal\<close> into a task on non-empty input. One fact about the library is written
  out, because the code's behaviour on it is observable from outside: empty input is never
  valid JSON (``unexpected end of JSON input'').
\<close>

record json_codec =
  marshal :: "task \<Rightarrow> string option"
  parse :: "string \<Rightarrow> task option"

definition json_unmarshal :: "json_codec \<Rightarrow> string \<Rightarrow> task option" where
  "json_unmarshal cd s = (if s = [] then None else parse cd s)"

section \<open>The broker\<close>

text \<open>
  The broker state is what the Redis keys hold: lists, sorted sets and hashes, each
  addressed by key name; a key that does not exist holds the empty value. A sorted set is
  an association list from member to score with distinct members. Every score this program
  writes is \<open>float64\<close> of an \<open>int64\<close>, which is an integer, so scores are \<open>int\<close>.
  Hash fields hold the numbers the rate limiter stores. Each command, each
  \<open>MULTI/EXEC\<close> pipeline and each script runs atomically on the broker, so each is one
  function from state to state. Connection faults are not part of the model; the
  branches of the client that handle them are kept.
\<close>

type_synonym zset = "(string \<times> int) list"

record broker =
  lists :: "string \<Rightarrow> string list"
  zsets :: "string \<Rightarrow> zset"
  hashes :: "string \<Rightarrow> string \<Rightarrow> int option"

definition empty_broker :: broker where
  "empty_broker = \<lparr> lists = (\<lambda>_. []), zsets = (\<lambda>_. []), hashes = (\<lambda>_ _. None) \<rparr>"

datatype error = RedisNil | JSONError | MarshalError | BrokerFault | ScriptError | ShiftPanic

definition rpush :: "string \<Rightarrow> string \<Rightarrow> broker \<Rightarrow> broker" where
  "rpush k v st = st\<lparr>lists := (lists st)(k := lists st k @ [v])\<rparr>"

text \<open>\<open>BLMOVE src dst LEFT RIGHT\<close>: pop the head of \<open>src\<close>, append it to \<open>dst\<close>;
  \<open>redis.Nil\<close> when \<open>src\<close> is empty once the wait is over.\<close>

definition blmove :: "string \<Rightarrow> string \<Rightarrow> broker \<Rightarrow> (error + string) \<times> broker" where
  "blmove src dst st =
     (case lists st src of
        [] \<Rightarrow> (Inl RedisNil, st)
      | x # xs \<Rightarrow>
          (let popped = st\<lparr>lists := (lists st)(src := xs)\<rparr>
           in (Inr x, rpush dst x popped)))"

text \<open>\<open>LREM key 1 value\<close>: remove the first occurrence, counted from the head.\<close>

definition lrem1 :: "string \<Rightarrow> string \<Rightarrow> broker \<Rightarrow> broker" where
  "lrem1 k v st = st\<lparr>lists := (lists st)(k := remove1 v (lists st k))\<rparr>"

text \<open>\<open>LTRIM key start stop\<close> with Redis's index rules: a negative index counts from
  the tail, an out-of-range start empties the list, an out-of-range stop is clamped.\<close>

definition ltrim_list :: "int \<Rightarrow> int \<Rightarrow> 'a list \<Rightarrow> 'a list" where
  "ltrim_list start stop xs =
     (let llen = int (length xs);
          s0 = (if start < 0 then llen + start else start);
          e0 = (if stop < 0 then llen + stop else stop);
          s1 = (if s0 < 0 then 0 else s0)
      in if s1 > e0 \<or> s1 \<ge> llen then []
         else let e1 = (if e0 \<ge> llen then llen - 1 else e0)
              in take (nat (e1 - s1 + 1)) (drop (nat s1) xs))"

definition ltrim :: "string \<Rightarrow> int \<Rightarrow> int \<Rightarrow> broker \<Rightarrow> broker" where
  "ltrim k start stop st = st\<lparr>lists := (lists st)(k := ltrim_list start stop (lists st k))\<rparr>"

section \<open>The queue client (pkg/queue/client.go)\<close>

subsection \<open>Enqueue\<close>

definition queueName_of :: "int \<Rightarrow> string" where
  "queueName_of p =
     (if p = PriorityHigh then ''queue:high''
      else if p = PriorityLow then ''queue:low''
      else ''queue:default'')"

definition Enqueue :: "json_codec \<Rightarrow> task \<Rightarrow> broker \<Rightarrow> error option \<times> broker" where
  "Enqueue cd t st =
     (case marshal cd t of
        None \<Rightarrow> (Some MarshalError, st)
      | Some data \<Rightarrow> (None, rpush (queueName_of (Priority t)) data st))"

subsection \<open>Dequeue\<close>

text \<open>The loop over the three queue names. The move into \<open>processing_queue\<close> has
  happened by the time the token is decoded, so a decode error leaves the token in flight.\<close>

fun dequeue_loop ::
  "json_codec \<Rightarrow> string list \<Rightarrow> broker \<Rightarrow> (error + task \<times> string) \<times> broker" where
  "dequeue_loop cd [] st = (Inl RedisNil, st)"
| "dequeue_loop cd (q # qs) st =
     (case blmove q ''processing_queue'' st of
        (Inr result, st') \<Rightarrow>
          (case json_unmarshal cd result of
             None \<Rightarrow> (Inl JSONError, st')
           | Some t \<Rightarrow> (Inr (t, result), st'))
      | (Inl e, st') \<Rightarrow>
          (if e \<noteq> RedisNil then (Inl e, st') else dequeue_loop cd qs st'))"

definition Dequeue :: "json_codec \<Rightarrow> broker \<Rightarrow> (error + task \<times> string) \<times> broker" where
  "Dequeue cd st = dequeue_loop cd [''queue:high'', ''queue:default'', ''queue:low''] st"

subsection \<open>Ack, Complete, Fail\<close>

definition Ack :: "string \<Rightarrow> broker \<Rightarrow> broker" where
  "Ack rawTask st = lrem1 ''processing_queue'' rawTask st"

text \<open>The pipeline of \<open>Complete\<close>: three commands, run in order as one transaction.
  None of them looks at the reply of the one before.\<close>

definition Complete :: "string \<Rightarrow> broker \<Rightarrow> broker" where
  "Complete rawTask st =
     ltrim ''completed_queue'' (- 100) (- 1)
       (rpush ''completed_queue'' rawTask
         (lrem1 ''processing_queue'' rawTask st))"

definition Fail :: "json_codec \<Rightarrow> task \<Rightarrow> string \<Rightarrow> broker \<Rightarrow> error option \<times> broker" where
  "Fail cd t rawTask st =
     (case marshal cd t of
        None \<Rightarrow> (Some MarshalError, st)
      | Some data \<Rightarrow>
          (None, lrem1 ''processing_queue'' rawTask (rpush ''dead_letter_queue'' data st)))"

subsection \<open>Retry\<close>

text \<open>Go's \<open>int64\<close> arithmetic wraps around; \<open>wrap64\<close> is the two's complement value of
  an integer. A shift count of 64 or more gives 0 and a negative one panics.\<close>

definition wrap64 :: "int \<Rightarrow> int" where
  "wrap64 x = (x + 2 ^ 63) mod 2 ^ 64 - 2 ^ 63"

definition shl_one :: "int \<Rightarrow> error + int" where
  "shl_one n =
     (if n < 0 then Inl ShiftPanic
      else if n \<ge> 64 then Inr 0
      else Inr (wrap64 (2 ^ nat n)))"

definition Millisecond :: int where
  "Millisecond = 1000000"

text \<open>\<open>float64(x)\<close> for an \<open>int64\<close> \<open>x\<close>: the nearest number with a 53-bit significand,
  ties to even. Such a number is an integer, so the conversion is a function on \<open>int\<close>.\<close>

function bitlen :: "int \<Rightarrow> nat" where
  "bitlen n = (if n \<le> 0 then 0 else Suc (bitlen (n div 2)))"
  by pat_completeness auto
termination
  by (relation "measure nat") auto

declare bitlen.simps [simp del]

definition float64_of_int64 :: "int \<Rightarrow> int" where
  "float64_of_int64 n =
     (let a = \<bar>n\<bar>; e = bitlen a
      in if e \<le> 53 then n
         else let s = e - 53;
                  q = a div 2 ^ s;
                  r = a mod 2 ^ s;
                  h = 2 ^ (s - 1);
                  q' = (if r > h \<or> (r = h \<and> odd q) then q + 1 else q)
              in sgn n * (q' * 2 ^ s))"

text \<open>\<open>ZADD key score member\<close>: a member already present gets the new score.\<close>

definition zadd_list :: "string \<Rightarrow> int \<Rightarrow> zset \<Rightarrow> zset" where
  "zadd_list m s z = filter (\<lambda>(m', _). m' \<noteq> m) z @ [(m, s)]"

definition zadd :: "string \<Rightarrow> string \<Rightarrow> int \<Rightarrow> broker \<Rightarrow> broker" where
  "zadd k m s st = st\<lparr>zsets := (zsets st)(k := zadd_list m s (zsets st k))\<rparr>"

text \<open>\<open>now\<close> is what \<open>time.Now().UnixNano()\<close> gives at the call.\<close>

definition Retry ::
  "json_codec \<Rightarrow> int \<Rightarrow> task \<Rightarrow> string \<Rightarrow> broker \<Rightarrow> error option \<times> broker" where
  "Retry cd now t rawTask st =
     (let t1 = t\<lparr>RetryCount := wrap64 (RetryCount t + 1)\<rparr>
      in case shl_one (RetryCount t1) of
           Inl e \<Rightarrow> (Some e, st)
         | Inr sh \<Rightarrow>
             (let backoff = wrap64 (wrap64 (sh * 100) * Millisecond);
                  processAt = wrap64 (now + backoff)
              in case marshal cd t1 of
                   None \<Rightarrow> (Some MarshalError, st)
                 | Some newTaskData \<Rightarrow>
                     (None,
                      lrem1 ''processing_queue'' rawTask
                        (zadd ''delayed_queue'' newTaskData (float64_of_int64 processAt) st))))"

subsection \<open>The delay scheduler\<close>





subsection \<open>The rate limiter\<close>

text \<open>The token-bucket script of \<open>Allow\<close>. Its numbers are the integers the program
  passes in (rate, burst, whole seconds, one requested token), so its arithmetic is that of
  \<open>int\<close>. A missing hash field reads as \<open>nil\<close>; arithmetic on \<open>nil\<close> aborts the script.\<close>

definition hset2 :: "string \<Rightarrow> int \<Rightarrow> int \<Rightarrow> broker \<Rightarrow> broker" where
  "hset2 key new_tokens now st =
     st\<lparr>hashes := (hashes st)(key :=
        ((hashes st key)(''tokens'' := Some new_tokens))(''last_refill'' := Some now))\<rparr>"

definition allow_script ::
  "string \<Rightarrow> int \<Rightarrow> int \<Rightarrow> int \<Rightarrow> int \<Rightarrow> broker \<Rightarrow> (error + int) \<times> broker" where
  "allow_script key rate burst now requested st =
     (case (case hashes st key ''tokens'' of
              None \<Rightarrow> Inr (burst, now)
            | Some tk \<Rightarrow>
                (case hashes st key ''last_refill'' of
                   None \<Rightarrow> Inl ScriptError
                 | Some lr \<Rightarrow> Inr (tk, lr))) of
        Inl e \<Rightarrow> (Inl e, st)
      | Inr (tokens, last_refill) \<Rightarrow>
          (let delta = max 0 (now - last_refill);
               new_tokens = min burst (tokens + delta * rate)
           in if new_tokens \<ge> requested
              then (Inr 1, hset2 key (new_tokens - requested) now st)
              else (Inr 0, hset2 key new_tokens now st)))"

text \<open>\<open>now_ns\<close> is the wall clock in nanoseconds; \<open>time.Now().Unix()\<close> is its whole
  seconds.\<close>

definition unix_seconds :: "int \<Rightarrow> int" where
  "unix_seconds now_ns = now_ns div 1000000000"

definition Allow ::
  "string \<Rightarrow> int \<Rightarrow> int \<Rightarrow> int \<Rightarrow> broker \<Rightarrow> (error + bool) \<times> broker" where
  "Allow key limit burst now_ns st =
     (case allow_script key limit burst (unix_seconds now_ns) 1 st of
        (Inl e, st') \<Rightarrow> (Inl e, st')
      | (Inr result, st') \<Rightarrow> (Inr (result = 1), st'))"

text \<open>A run of calls on one key, at the given wall-clock times in order.\<close>

fun allow_calls ::
  "string \<Rightarrow> int \<Rightarrow> int \<Rightarrow> int list \<Rightarrow> broker \<Rightarrow> (error + bool) list \<times> broker" where
  "allow_calls key limit burst [] st = ([], st)"
| "allow_calls key limit burst (t # ts) st =
     (case Allow key limit burst t st of
        (r, st') \<Rightarrow>
          (case allow_calls key limit burst ts st' of
             (rs, st'') \<Rightarrow> (r # rs, st'')))"

section \<open>The worker loop (cmd/worker/main.go)\<close>


section \<open>The HTTP server (cmd/server/main.go)\<close>

text \<open>
  A request is its method, the value of its \<open>X-API-Key\<close> header if it has one, its query
  parameters and its body. A response writer holds the status (0 until a header is
  written), the headers set and the body written.
\<close>

record request =
  Method :: string
  XAPIKey :: "string option"
  Query :: "string \<Rightarrow> string"
  Body :: string

record response =
  Status :: nat
  Headers :: "(string \<times> string) list"
  Out :: string

definition new_response :: response where
  "new_response = \<lparr> Status = 0, Headers = [], Out = [] \<rparr>"

definition header_set :: "string \<Rightarrow> string \<Rightarrow> response \<Rightarrow> response" where
  "header_set k v w = w\<lparr>Headers := (k, v) # filter (\<lambda>(k', _). k' \<noteq> k) (Headers w)\<rparr>"

definition WriteHeader :: "nat \<Rightarrow> response \<Rightarrow> response" where
  "WriteHeader code w = (if Status w = 0 then w\<lparr>Status := code\<rparr> else w)"

definition Write :: "string \<Rightarrow> response \<Rightarrow> response" where
  "Write s w = (let w' = WriteHeader 200 w in w'\<lparr>Out := Out w' @ s\<rparr>)"

definition http_Error :: "string \<Rightarrow> nat \<Rightarrow> response \<Rightarrow> response" where
  "http_Error msg code w =
     Write msg
       (WriteHeader code
         (header_set ''X-Content-Type-Options'' ''nosniff''
           (header_set ''Content-Type'' ''text/plain; charset=utf-8'' w)))"

definition header_Get :: "request \<Rightarrow> string" where
  "header_Get r = (case XAPIKey r of None \<Rightarrow> [] | Some v \<Rightarrow> v)"

type_synonym handler = "response \<Rightarrow> request \<Rightarrow> broker \<Rightarrow> response \<times> broker"

definition authMiddleware :: "handler \<Rightarrow> string \<Rightarrow> handler" where
  "authMiddleware next requiredKey w r st =
     (if requiredKey = [] then next w r st
      else let apiKey = header_Get r
           in if apiKey \<noteq> requiredKey
              then (http_Error ''Unauthorized'' 401 w, st)
              else next w r st)"

definition cors_headers :: "response \<Rightarrow> response" where
  "cors_headers w =
     header_set ''Access-Control-Allow-Headers''
       ''Accept, Content-Type, Content-Length, Accept-Encoding, X-CSRF-Token, Authorization, X-API-Key''
       (header_set ''Access-Control-Allow-Methods'' ''POST, GET, OPTIONS, PUT, DELETE''
         (header_set ''Access-Control-Allow-Origin'' ''*'' w))"

definition enableCORS :: "handler \<Rightarrow> handler" where
  "enableCORS next w r st =
     (let w1 = cors_headers w
      in if Method r = ''OPTIONS'' then (WriteHeader 200 w1, st)
         else next w1 r st)"

text \<open>
  The body of \<open>POST /enqueue\<close> decodes into a struct of \<open>Type\<close>, \<open>Payload\<close> and \<open>Priority\<close>.
  The JSON reader is a parameter that gives the fields the object has; a field the
  object lacks keeps Go's zero value. An empty body is the decoder's \<open>io.EOF\<close>. Error
  texts that the code takes from \<open>err.Error()\<close> are written as fixed strings.
\<close>

record body_fields =
  spec_field :: "string option"
  type_field :: "string option"
  payload_field :: "string option"
  priority_field :: "int option"

record enqueue_req =
  req_Spec :: string
  req_Type :: string
  req_Payload :: string
  req_Priority :: int

definition Decode :: "(string \<Rightarrow> body_fields option) \<Rightarrow> string \<Rightarrow> enqueue_req option" where
  "Decode read_object b =
     (if b = [] then None
      else case read_object b of
             None \<Rightarrow> None
           | Some f \<Rightarrow>
               Some \<lparr> req_Spec = (case spec_field f of None \<Rightarrow> [] | Some s \<Rightarrow> s),
                      req_Type = (case type_field f of None \<Rightarrow> [] | Some s \<Rightarrow> s),
                      req_Payload = (case payload_field f of None \<Rightarrow> ''null'' | Some p \<Rightarrow> p),
                      req_Priority = (case priority_field f of None \<Rightarrow> 0 | Some p \<Rightarrow> p) \<rparr>)"

text \<open>What a request meets outside the handler's own control flow: the codec, the JSON
  reader, the identifier and the time drawn for the request, and the outcomes of the
  client calls whose state the claims do not involve.\<close>

record server_env =
  env_codec :: json_codec
  env_read_object :: "string \<Rightarrow> body_fields option"
  env_uuid :: string
  env_now :: int
  env_GetResult :: "string \<Rightarrow> error + string"
  env_Schedule :: "string \<Rightarrow> task \<Rightarrow> error + string"
  env_stats_json :: "error + string"
  env_tasks_json :: "string \<Rightarrow> error + error + string"

definition task_of_req :: "server_env \<Rightarrow> enqueue_req \<Rightarrow> task" where
  "task_of_req env req =
     \<lparr> ID = env_uuid env, Type = req_Type req, Payload = req_Payload req,
       CreatedAt = env_now env, RetryCount = 0, Priority = req_Priority req \<rparr>"

definition enqueueHandler :: "server_env \<Rightarrow> handler" where
  "enqueueHandler env w r st =
     (if Method r \<noteq> ''POST'' then (http_Error ''Method not allowed'' 405 w, st)
      else case Decode (env_read_object env) (Body r) of
             None \<Rightarrow> (http_Error ''bad request'' 400 w, st)
           | Some req \<Rightarrow>
               (case Enqueue (env_codec env) (task_of_req env req) st of
                  (Some e, st') \<Rightarrow> (http_Error ''enqueue failed'' 500 w, st')
                | (None, st') \<Rightarrow>
                    (Write (''Task enqueued: '' @ env_uuid env @ [CHR 0x0A]) w, st')))"

definition resultHandler :: "server_env \<Rightarrow> handler" where
  "resultHandler env w r st =
     (let taskID = Query r ''id''
      in if taskID = [] then (http_Error ''Missing task ID'' 400 w, st)
         else case env_GetResult env taskID of
                Inl e \<Rightarrow>
                  (if e = RedisNil then (http_Error ''Result not found'' 404 w, st)
                   else (http_Error ''get result failed'' 500 w, st))
              | Inr result \<Rightarrow>
                  (Write result (header_set ''Content-Type'' ''application/json'' w), st))"

definition scheduleHandler :: "server_env \<Rightarrow> handler" where
  "scheduleHandler env w r st =
     (if Method r \<noteq> ''POST'' then (http_Error ''Method not allowed'' 405 w, st)
      else case Decode (env_read_object env) (Body r) of
             None \<Rightarrow> (http_Error ''bad request'' 400 w, st)
           | Some req \<Rightarrow>
               (case env_Schedule env (req_Spec req) (task_of_req env req) of
                  Inl e \<Rightarrow> (http_Error ''Invalid cron spec'' 400 w, st)
                | Inr entryID \<Rightarrow>
                    (Write (''Job scheduled with EntryID: '' @ entryID @ [CHR 0x0A]) w, st)))"

definition statsHandler :: "server_env \<Rightarrow> handler" where
  "statsHandler env w r st =
     (if Method r \<noteq> ''GET'' then (http_Error ''Method not allowed'' 405 w, st)
      else let w1 = header_set ''Content-Type'' ''application/json'' w
           in case env_stats_json env of
                Inl e \<Rightarrow> (http_Error ''encode failed'' 500 w1, st)
              | Inr js \<Rightarrow> (Write js w1, st))"

definition tasksHandler :: "server_env \<Rightarrow> handler" where
  "tasksHandler env w r st =
     (if Method r \<noteq> ''GET'' then (http_Error ''Method not allowed'' 405 w, st)
      else let queueName = Query r ''queue''
           in if queueName = [] then (http_Error ''Missing queue parameter'' 400 w, st)
              else case env_tasks_json env queueName of
                     Inl e \<Rightarrow> (http_Error ''inspect failed'' 500 w, st)
                   | Inr (Inl e) \<Rightarrow>
                       (http_Error ''encode failed'' 500
                          (header_set ''Content-Type'' ''application/json'' w), st)
                   | Inr (Inr js) \<Rightarrow>
                       (Write js (header_set ''Content-Type'' ''application/json'' w), st))"

text \<open>The routes of \<open>setupRouter\<close>: each handler behind the key check, behind the CORS
  wrapper. A path with no route is the mux's 404.\<close>

definition endpoint :: "server_env \<Rightarrow> string \<Rightarrow> handler option" where
  "endpoint env path =
     (if path = ''/enqueue'' then Some (enqueueHandler env)
      else if path = ''/result'' then Some (resultHandler env)
      else if path = ''/schedule'' then Some (scheduleHandler env)
      else if path = ''/stats'' then Some (statsHandler env)
      else if path = ''/tasks'' then Some (tasksHandler env)
      else None)"

definition setupRouter :: "server_env \<Rightarrow> string \<Rightarrow> string \<Rightarrow> handler" where
  "setupRouter env apiKey path w r st =
     (case endpoint env path of
        None \<Rightarrow> (http_Error ''404 page not found'' 404 w, st)
      | Some h \<Rightarrow> enableCORS (authMiddleware h apiKey) w r st)"

section \<open>Histories of client calls\<close>

text \<open>A history of \<open>Enqueue\<close> and \<open>Dequeue\<close> calls, run in order; \<open>enqueued\<close> lists the
  encoded tasks that \<open>Enqueue\<close> pushed, and \<open>held\<close> is everything in the three ready queues,
  the in-flight list and the completed list.\<close>

datatype call = Enq task | Deq

fun run_call :: "json_codec \<Rightarrow> call \<Rightarrow> broker \<Rightarrow> broker" where
  "run_call cd (Enq t) st = snd (Enqueue cd t st)"
| "run_call cd Deq st = snd (Dequeue cd st)"

definition run :: "json_codec \<Rightarrow> call list \<Rightarrow> broker \<Rightarrow> broker" where
  "run cd cs st = fold (run_call cd) cs st"

fun enqueued :: "json_codec \<Rightarrow> call list \<Rightarrow> string list" where
  "enqueued cd [] = []"
| "enqueued cd (Enq t # cs) =
     (case marshal cd t of None \<Rightarrow> enqueued cd cs | Some data \<Rightarrow> data # enqueued cd cs)"
| "enqueued cd (Deq # cs) = enqueued cd cs"

definition held :: "broker \<Rightarrow> string list" where
  "held st =
     lists st ''queue:high'' @ lists st ''queue:default'' @ lists st ''queue:low'' @
     lists st ''processing_queue'' @ lists st ''completed_queue''"

section \<open>A codec and tasks for the examples\<close>

text \<open>The examples run the definitions on a small codec that writes a task as its
  identifier, a colon and one \<open>r\<close> per retry.\<close>

definition example_codec :: json_codec where
  "example_codec =
     \<lparr> marshal = (\<lambda>t. Some (ID t @ '':'' @ replicate (nat (RetryCount t)) (CHR ''r''))),
       parse = (\<lambda>s. Some \<lparr> ID = takeWhile (\<lambda>c. c \<noteq> CHR '':'') s, Type = ''test'',
                           Payload = ''null'', CreatedAt = 0,
                           RetryCount = int (length (filter (\<lambda>c. c = CHR ''r'')
                                          (dropWhile (\<lambda>c. c \<noteq> CHR '':'') s))),
                           Priority = 0 \<rparr>) \<rparr>"

definition example_task :: "string \<Rightarrow> int \<Rightarrow> int \<Rightarrow> task" where
  "example_task i rc p =
     \<lparr> ID = i, Type = ''test'', Payload = ''null'', CreatedAt = 0, RetryCount = rc, Priority = p \<rparr>"

definition example_env :: server_env where
  "example_env =
     \<lparr> env_codec = example_codec,
       env_read_object = (\<lambda>b. if b = ''{}''
                               then Some \<lparr> spec_field = None, type_field = None,
                                           payload_field = None, priority_field = None \<rparr>
                               else None),
       env_uuid = ''u1'', env_now = 0,
       env_GetResult = (\<lambda>_. Inl RedisNil),
       env_Schedule = (\<lambda>_ _. Inr ''1''),
       env_stats_json = Inr ''{}'',
       env_tasks_json = (\<lambda>_. Inr (Inr ''[]'')) \<rparr>"

section \<open>Dequeue: strict priority\<close>

lemma Dequeue_high:
  "lists st ''queue:high'' = x # xs \<Longrightarrow>
   Dequeue cd st =
     ((case json_unmarshal cd x of None \<Rightarrow> Inl JSONError | Some t \<Rightarrow> Inr (t, x)),
      st\<lparr>lists := (lists st)(''queue:high'' := xs,
            ''processing_queue'' := lists st ''processing_queue'' @ [x])\<rparr>)"
  by (simp add: Dequeue_def blmove_def rpush_def split: option.splits)

lemma Dequeue_default:
  "lists st ''queue:high'' = [] \<Longrightarrow> lists st ''queue:default'' = x # xs \<Longrightarrow>
   Dequeue cd st =
     ((case json_unmarshal cd x of None \<Rightarrow> Inl JSONError | Some t \<Rightarrow> Inr (t, x)),
      st\<lparr>lists := (lists st)(''queue:default'' := xs,
            ''processing_queue'' := lists st ''processing_queue'' @ [x])\<rparr>)"
  by (simp add: Dequeue_def blmove_def rpush_def split: option.splits)

lemma Dequeue_low:
  "lists st ''queue:high'' = [] \<Longrightarrow> lists st ''queue:default'' = [] \<Longrightarrow>
   lists st ''queue:low'' = x # xs \<Longrightarrow>
   Dequeue cd st =
     ((case json_unmarshal cd x of None \<Rightarrow> Inl JSONError | Some t \<Rightarrow> Inr (t, x)),
      st\<lparr>lists := (lists st)(''queue:low'' := xs,
            ''processing_queue'' := lists st ''processing_queue'' @ [x])\<rparr>)"
  by (simp add: Dequeue_def blmove_def rpush_def split: option.splits)

lemma Dequeue_empty:
  "lists st ''queue:high'' = [] \<Longrightarrow> lists st ''queue:default'' = [] \<Longrightarrow>
   lists st ''queue:low'' = [] \<Longrightarrow> Dequeue cd st = (Inl RedisNil, st)"
  by (simp add: Dequeue_def blmove_def)

text \<open>
  C1, as the code has it. \<open>Dequeue\<close> moves the head of the highest-priority non-empty
  ready queue (high, then default, then low) to the right end of \<open>processing_queue\<close>. It
  returns the decoded task with that raw token when the token decodes as a task; when it
  does not decode, the move has still happened and \<open>Dequeue\<close> returns the decode error.
  When all three queues are empty it returns \<open>redis.Nil\<close> and the state is unchanged.
\<close>

theorem Dequeue_strict_priority:
  "(lists st ''queue:high'' = x # xs \<longrightarrow>
      Dequeue cd st =
        ((case json_unmarshal cd x of None \<Rightarrow> Inl JSONError | Some t \<Rightarrow> Inr (t, x)),
         st\<lparr>lists := (lists st)(''queue:high'' := xs,
               ''processing_queue'' := lists st ''processing_queue'' @ [x])\<rparr>)) \<and>
   (lists st ''queue:high'' = [] \<and> lists st ''queue:default'' = x # xs \<longrightarrow>
      Dequeue cd st =
        ((case json_unmarshal cd x of None \<Rightarrow> Inl JSONError | Some t \<Rightarrow> Inr (t, x)),
         st\<lparr>lists := (lists st)(''queue:default'' := xs,
               ''processing_queue'' := lists st ''processing_queue'' @ [x])\<rparr>)) \<and>
   (lists st ''queue:high'' = [] \<and> lists st ''queue:default'' = [] \<and>
    lists st ''queue:low'' = x # xs \<longrightarrow>
      Dequeue cd st =
        ((case json_unmarshal cd x of None \<Rightarrow> Inl JSONError | Some t \<Rightarrow> Inr (t, x)),
         st\<lparr>lists := (lists st)(''queue:low'' := xs,
               ''processing_queue'' := lists st ''processing_queue'' @ [x])\<rparr>)) \<and>
   (lists st ''queue:high'' = [] \<and> lists st ''queue:default'' = [] \<and>
    lists st ''queue:low'' = [] \<longrightarrow>
      Dequeue cd st = (Inl RedisNil, st))"
  using Dequeue_high [of st x xs cd] Dequeue_default [of st x xs cd]
    Dequeue_low [of st x xs cd] Dequeue_empty [of st cd]
  by blast

text \<open>The theorem at a state with \<open>b:\<close> in \<open>queue:high\<close> and \<open>a:\<close> in \<open>queue:low\<close>: the
  task \<open>b\<close> is returned and its token is in flight.\<close>

theorem Dequeue_strict_priority_witness:
  "lists (rpush ''queue:high'' ''b:'' (rpush ''queue:low'' ''a:'' empty_broker)) ''queue:high''
     = ''b:'' # [] \<and>
   fst (Dequeue example_codec (rpush ''queue:high'' ''b:'' (rpush ''queue:low'' ''a:'' empty_broker)))
     = Inr (example_task ''b'' 0 0, ''b:'') \<and>
   lists (snd (Dequeue example_codec
      (rpush ''queue:high'' ''b:'' (rpush ''queue:low'' ''a:'' empty_broker)))) ''processing_queue''
     = [''b:''] \<and>
   lists (snd (Dequeue example_codec
      (rpush ''queue:high'' ''b:'' (rpush ''queue:low'' ''a:'' empty_broker)))) ''queue:low''
     = [''a:'']"
proof -
  let ?st = "rpush ''queue:high'' ''b:'' (rpush ''queue:low'' ''a:'' empty_broker)"
  have h: "lists ?st ''queue:high'' = ''b:'' # []"
    by (simp add: rpush_def empty_broker_def)
  show ?thesis
    using h Dequeue_strict_priority [of ?st "''b:''" "[]" example_codec]
    by (simp add: rpush_def empty_broker_def json_unmarshal_def example_codec_def
        example_task_def)
qed

text \<open>The claim as stated fails where the head of \<open>queue:high\<close> is not the encoding of a
  task: the queue is non-empty, the token is moved in flight, and no task is returned.\<close>

theorem Dequeue_undecodable_head_counterexample:
  "lists (rpush ''queue:high'' [] empty_broker) ''queue:high'' \<noteq> [] \<and>
   fst (Dequeue example_codec (rpush ''queue:high'' [] empty_broker)) = Inl JSONError \<and>
   lists (snd (Dequeue example_codec (rpush ''queue:high'' [] empty_broker))) ''processing_queue''
     = [[]]"
  by (simp add: Dequeue_def blmove_def rpush_def empty_broker_def json_unmarshal_def)

section \<open>Enqueue and Dequeue keep every task in one place\<close>

lemma held_Dequeue: "mset (held (snd (Dequeue cd st))) = mset (held st)"
proof (cases "lists st ''queue:high''")
  case (Cons x xs)
  then show ?thesis by (simp add: Dequeue_high held_def)
next
  case Nil
  note h = this
  show ?thesis
  proof (cases "lists st ''queue:default''")
    case (Cons x xs)
    with h show ?thesis by (simp add: Dequeue_default held_def)
  next
    case Nil
    note d = this
    show ?thesis
    proof (cases "lists st ''queue:low''")
      case (Cons x xs)
      with h d show ?thesis by (simp add: Dequeue_low held_def)
    next
      case Nil
      with h d show ?thesis by (simp add: Dequeue_empty)
    qed
  qed
qed

lemma held_Enqueue:
  "mset (held (snd (Enqueue cd t st))) =
     mset (held st) + (case marshal cd t of None \<Rightarrow> {#} | Some d \<Rightarrow> {#d#})"
  by (simp add: Enqueue_def rpush_def held_def queueName_of_def split: option.splits)

lemma held_run_call:
  "mset (held (run_call cd c st)) = mset (held st) + mset (enqueued cd [c])"
  by (cases c) (simp_all add: held_Enqueue held_Dequeue split: option.splits)

lemma enqueued_Cons:
  "mset (enqueued cd (c # cs)) = mset (enqueued cd [c]) + mset (enqueued cd cs)"
  by (cases c) (simp_all split: option.splits)

lemma held_run: "mset (held (run cd cs st)) = mset (held st) + mset (enqueued cd cs)"
  unfolding run_def
proof (induction cs arbitrary: st)
  case Nil
  then show ?case by simp
next
  case (Cons c cs)
  have "mset (held (fold (run_call cd) (c # cs) st)) =
        mset (held (run_call cd c st)) + mset (enqueued cd cs)"
    using Cons.IH [of "run_call cd c st"] by simp
  then show ?case
    by (simp only: held_run_call enqueued_Cons [of cd c cs] add.assoc)
qed

lemma held_empty: "held empty_broker = []"
  by (simp add: held_def empty_broker_def)

text \<open>
  C3. Run any history of \<open>Enqueue\<close> and \<open>Dequeue\<close> calls from the empty broker. If the
  encoded tasks that were pushed are pairwise distinct, then the ready queues, the in-flight
  list and the completed list together hold exactly those encoded tasks, each of them once:
  their concatenation has no duplicate, so no task is in two lists or twice in one.
  (A call of \<open>Enqueue\<close> whose serialization fails pushes nothing and is not in \<open>enqueued\<close>.)
\<close>

theorem exactly_once_membership:
  "distinct (enqueued cd cs) \<Longrightarrow>
     mset (held (run cd cs empty_broker)) = mset (enqueued cd cs) \<and>
     distinct (held (run cd cs empty_broker)) \<and>
     (\<forall>d \<in> set (enqueued cd cs). count_list (held (run cd cs empty_broker)) d = 1)"
proof -
  assume dist: "distinct (enqueued cd cs)"
  have m: "mset (held (run cd cs empty_broker)) = mset (enqueued cd cs)"
    by (simp add: held_run held_empty)
  have d: "distinct (held (run cd cs empty_broker))"
    using m dist by (metis mset_eq_imp_distinct_iff)
  have "count_list (held (run cd cs empty_broker)) x = 1" if "x \<in> set (enqueued cd cs)" for x
  proof -
    from that have "x \<in> set (held (run cd cs empty_broker))"
      using m by (metis mset_eq_setD)
    then show ?thesis
      using d distinct_count_atmost_1 [of "held (run cd cs empty_broker)"]
      by (simp add: count_mset)
  qed
  with m d show ?thesis by blast
qed

text \<open>The theorem on the history of scenario S1 followed by two dequeues: the tasks
  \<open>high\<close> and \<open>default\<close> are in flight and \<open>low\<close> is still ready.\<close>

theorem exactly_once_membership_witness:
  "distinct (enqueued example_codec
     [Enq (example_task ''low'' 0 0), Enq (example_task ''high'' 0 2),
      Enq (example_task ''default'' 0 1), Deq, Deq]) \<and>
   mset (held (run example_codec
     [Enq (example_task ''low'' 0 0), Enq (example_task ''high'' 0 2),
      Enq (example_task ''default'' 0 1), Deq, Deq] empty_broker))
     = {#''low:'', ''high:'', ''default:''#} \<and>
   lists (run example_codec
     [Enq (example_task ''low'' 0 0), Enq (example_task ''high'' 0 2),
      Enq (example_task ''default'' 0 1), Deq, Deq] empty_broker) ''processing_queue''
     = [''high:'', ''default:'']"
proof -
  let ?cs = "[Enq (example_task ''low'' 0 0), Enq (example_task ''high'' 0 2),
      Enq (example_task ''default'' 0 1), Deq, Deq]"
  have e: "enqueued example_codec ?cs = [''low:'', ''high:'', ''default:'']"
    by (simp add: example_codec_def example_task_def)
  have dist: "distinct (enqueued example_codec ?cs)"
    unfolding e by simp
  have p: "lists (run example_codec ?cs empty_broker) ''processing_queue''
             = [''high:'', ''default:'']"
    by (simp add: run_def Enqueue_def Dequeue_def blmove_def rpush_def empty_broker_def
        queueName_of_def PriorityHigh_def PriorityLow_def json_unmarshal_def
        example_codec_def example_task_def)
  show ?thesis
    using dist p exactly_once_membership [OF dist] unfolding e by simp
qed

section \<open>Retry: the backoff and its score\<close>

lemma bitlen_le: "n < 2 ^ k \<Longrightarrow> bitlen n \<le> k"
proof (induction k arbitrary: n)
  case 0
  then show ?case by (simp add: bitlen.simps [of n])
next
  case (Suc k)
  show ?case
  proof (cases "n \<le> 0")
    case True
    then show ?thesis by (simp add: bitlen.simps [of n])
  next
    case False
    from Suc.prems have "n div 2 < 2 ^ k" by simp
    then have "bitlen (n div 2) \<le> k" by (rule Suc.IH)
    with False show ?thesis by (simp add: bitlen.simps [of n])
  qed
qed

lemma float64_near:
  assumes "0 \<le> n" "n < 2 ^ 63"
  shows "\<bar>float64_of_int64 n - n\<bar> \<le> 512"
proof (cases "bitlen \<bar>n\<bar> \<le> 53")
  case True
  then show ?thesis by (simp add: float64_of_int64_def Let_def)
next
  case False
  have abs: "\<bar>n\<bar> = n" using assms by simp
  have npos: "0 < n"
  proof (rule ccontr)
    assume "\<not> 0 < n"
    with assms have "n = 0" by simp
    with False show False by (simp add: bitlen.simps [of 0])
  qed
  then have sgn: "sgn n = 1" by simp
  define s where "s = bitlen n - 53"
  define h :: int where "h = 2 ^ (s - 1)"
  define q where "q = n div 2 ^ s"
  define r where "r = n mod 2 ^ s"
  have e: "bitlen n \<le> 63" using assms bitlen_le [of n 63] by simp
  with False abs have s: "1 \<le> s" "s \<le> 10" by (simp_all add: s_def)
  have two: "(2::int) ^ s = 2 * h"
    using s by (simp add: h_def power_Suc [symmetric] del: power_Suc)
  have "(2::int) ^ (s - 1) \<le> 2 ^ 9"
    using s by (intro power_increasing) simp_all
  then have h512: "h \<le> 512" by (simp add: h_def)
  have n: "n = q * (2 * h) + r"
    unfolding q_def r_def two [symmetric] using div_mult_mod_eq [of n "2 ^ s"] by simp
  have r: "0 \<le> r" "r < 2 * h"
    unfolding r_def two [symmetric] by simp_all
  have "float64_of_int64 n =
      (if bitlen n \<le> 53 then n
       else sgn n * ((if r > h \<or> (r = h \<and> odd q) then q + 1 else q) * 2 ^ s))"
    by (simp only: float64_of_int64_def Let_def abs s_def [symmetric] h_def [symmetric]
        q_def [symmetric] r_def [symmetric])
  then have f: "float64_of_int64 n =
      (if r > h \<or> (r = h \<and> odd q) then q + 1 else q) * (2 * h)"
    using False abs sgn two by simp
  show ?thesis
  proof (cases "r > h \<or> (r = h \<and> odd q)")
    case True
    with f have f': "float64_of_int64 n = (q + 1) * (2 * h)" by simp
    have "(q + 1) * (2 * h) - n = 2 * h - r"
      by (subst n) (simp add: algebra_simps)
    with f' have "float64_of_int64 n - n = 2 * h - r" by simp
    with True r h512 show ?thesis by auto
  next
    case False
    with f have f': "float64_of_int64 n = q * (2 * h)" by simp
    have "q * (2 * h) - n = - r"
      by (subst n) (simp add: algebra_simps)
    with f' have "float64_of_int64 n - n = - r" by simp
    with False r h512 show ?thesis by auto
  qed
qed


lemma wrap64_id:
  "- 9223372036854775808 \<le> x \<Longrightarrow> x < 9223372036854775808 \<Longrightarrow> wrap64 x = x"
  by (simp add: wrap64_def)

lemma pow2_le_36: "0 \<le> j \<Longrightarrow> j \<le> 36 \<Longrightarrow> (2::int) ^ nat j \<le> 68719476736"
proof -
  assume "0 \<le> j" "j \<le> 36"
  then have "(2::int) ^ nat j \<le> 2 ^ 36"
    by (intro power_increasing) simp_all
  then show ?thesis by simp
qed

lemma shl_one_small:
  assumes "0 \<le> j" "j \<le> 36"
  shows "shl_one j = Inr (2 ^ nat j)"
proof -
  have "(0::int) < 2 ^ nat j" by simp
  with pow2_le_36 [OF assms] have "wrap64 (2 ^ nat j) = 2 ^ nat j"
    by (intro wrap64_id) linarith+
  with assms show ?thesis by (simp add: shl_one_def)
qed

lemma backoff_small:
  assumes "0 \<le> j" "j \<le> 36"
  shows "wrap64 (wrap64 (2 ^ nat j * 100) * Millisecond) = 2 ^ nat j * 100000000"
proof -
  have pos: "(0::int) < 2 ^ nat j" by simp
  note le = pow2_le_36 [OF assms]
  have "wrap64 (2 ^ nat j * 100) = 2 ^ nat j * 100"
    using pos le by (intro wrap64_id) linarith+
  moreover have "wrap64 (2 ^ nat j * 100 * 1000000) = 2 ^ nat j * 100 * 1000000"
    using pos le by (intro wrap64_id) linarith+
  ultimately show ?thesis by (simp add: Millisecond_def)
qed

lemma Retry_small:
  assumes "RetryCount t = k" "0 \<le> k" "k \<le> 35"
    and "marshal cd (t\<lparr>RetryCount := k + 1\<rparr>) = Some d"
    and "0 \<le> now" "now + 2 ^ nat (k + 1) * 100000000 < 2 ^ 63"
  shows "Retry cd now t r st =
      (None,
       st\<lparr>lists := (lists st)(''processing_queue'' := remove1 r (lists st ''processing_queue'')),
          zsets := (zsets st)(''delayed_queue'' :=
            zadd_list d (float64_of_int64 (now + 2 ^ nat (k + 1) * 100000000))
              (zsets st ''delayed_queue''))\<rparr>)"
proof -
  have w: "wrap64 (k + 1) = k + 1"
    using assms by (intro wrap64_id) linarith+
  have j: "0 \<le> k + 1" "k + 1 \<le> 36" using assms by simp_all
  have "(0::int) < 2 ^ nat (k + 1)" by simp
  then have "(0::int) \<le> now + 2 ^ nat (k + 1) * 100000000"
    using assms(5) by simp
  then have p: "wrap64 (now + 2 ^ nat (k + 1) * 100000000) = now + 2 ^ nat (k + 1) * 100000000"
    using assms(6) by (intro wrap64_id) simp_all
  show ?thesis
    using assms(1,4)
    by (simp add: Retry_def Let_def w shl_one_small [OF j] backoff_small [OF j] p
        lrem1_def zadd_def)
qed

text \<open>
  C2, as the code has it. Take a task with retry count \<open>k\<close>, \<open>0 \<le> k \<le> 35\<close>, whose copy
  with count \<open>k + 1\<close> serializes to \<open>d\<close>, and a call at time \<open>now \<ge> 0\<close> (nanoseconds) such
  that \<open>now + 2^(k+1) * 100 ms\<close> is below \<open>2^63\<close>. Then \<open>Retry\<close> succeeds; it adds \<open>d\<close>, the
  serialization with the count raised by exactly one, to the delay set; it removes the
  first occurrence of the identity token from the in-flight list; and the score of \<open>d\<close>
  is the \<open>float64\<close> nearest to \<open>now + 2^(k+1) * 100 ms\<close> in nanoseconds, so that score minus
  \<open>now\<close> is within 512 ns of \<open>2^(k+1) * 100 ms\<close>.
\<close>

theorem Retry_backoff:
  "RetryCount t = k \<Longrightarrow> 0 \<le> k \<Longrightarrow> k \<le> 35 \<Longrightarrow>
   marshal cd (t\<lparr>RetryCount := k + 1\<rparr>) = Some d \<Longrightarrow>
   0 \<le> now \<Longrightarrow> now + 2 ^ nat (k + 1) * 100000000 < 2 ^ 63 \<Longrightarrow>
   Retry cd now t r st =
      (None,
       st\<lparr>lists := (lists st)(''processing_queue'' := remove1 r (lists st ''processing_queue'')),
          zsets := (zsets st)(''delayed_queue'' :=
            zadd_list d (float64_of_int64 (now + 2 ^ nat (k + 1) * 100000000))
              (zsets st ''delayed_queue''))\<rparr>) \<and>
   (d, float64_of_int64 (now + 2 ^ nat (k + 1) * 100000000))
      \<in> set (zsets (snd (Retry cd now t r st)) ''delayed_queue'') \<and>
   \<bar>float64_of_int64 (now + 2 ^ nat (k + 1) * 100000000) - now
       - 2 ^ nat (k + 1) * 100000000\<bar> \<le> 512"
proof -
  assume a: "RetryCount t = k" "0 \<le> k" "k \<le> 35"
    "marshal cd (t\<lparr>RetryCount := k + 1\<rparr>) = Some d"
    "0 \<le> now" "now + 2 ^ nat (k + 1) * 100000000 < 2 ^ 63"
  note R = Retry_small [OF a, of r st]
  have "\<bar>float64_of_int64 (now + 2 ^ nat (k + 1) * 100000000)
          - (now + 2 ^ nat (k + 1) * 100000000)\<bar> \<le> 512"
    using a by (intro float64_near) simp_all
  then have n: "\<bar>float64_of_int64 (now + 2 ^ nat (k + 1) * 100000000) - now
       - 2 ^ nat (k + 1) * 100000000\<bar> \<le> 512"
    by (simp add: algebra_simps)
  have m: "(d, float64_of_int64 (now + 2 ^ nat (k + 1) * 100000000))
      \<in> set (zsets (snd (Retry cd now t r st)) ''delayed_queue'')"
    unfolding R by (simp add: zadd_list_def)
  from R m n show ?thesis by blast
qed

text \<open>Scenario S2 at a time whose sum with the delay is a \<open>float64\<close>: the in-flight
  list is left empty and the one delayed entry is due 200 ms after the call.\<close>

theorem Retry_backoff_witness:
  "RetryCount (example_task ''a'' 0 1) = 0 \<and>
   marshal example_codec ((example_task ''a'' 0 1)\<lparr>RetryCount := 0 + 1\<rparr>) = Some ''a:r'' \<and>
   zsets (snd (Retry example_codec 1700000000000000000 (example_task ''a'' 0 1) ''a:''
      (rpush ''processing_queue'' ''a:'' empty_broker))) ''delayed_queue''
     = [(''a:r'', 1700000000200000000)] \<and>
   lists (snd (Retry example_codec 1700000000000000000 (example_task ''a'' 0 1) ''a:''
      (rpush ''processing_queue'' ''a:'' empty_broker))) ''processing_queue'' = []"
proof -
  have rc: "RetryCount (example_task ''a'' 0 1) = 0"
    by (simp add: example_task_def)
  have m: "marshal example_codec ((example_task ''a'' 0 1)\<lparr>RetryCount := 0 + 1\<rparr>) = Some ''a:r''"
    by (simp add: example_codec_def example_task_def)
  have f: "float64_of_int64 1700000000200000000 = 1700000000200000000"
    by (simp add: float64_of_int64_def bitlen.simps Let_def)
  show ?thesis
    using rc m f
      Retry_backoff [of "example_task ''a'' 0 1" 0 example_codec "''a:r''" 1700000000000000000
        "''a:''" "rpush ''processing_queue'' ''a:'' empty_broker"]
    by (simp add: rpush_def empty_broker_def zadd_list_def)
qed

text \<open>The claim as stated fails in two ways. At a present-day clock reading the sum is
  not a \<open>float64\<close>, and the stored score minus the time of the call is not the delay. At
  retry count 36 the delay overflows \<open>int64\<close> and the score lies before the call.\<close>

theorem Retry_score_counterexample:
  "map (\<lambda>(m, s). s - 1700000000000000001 = 2 ^ 1 * 100000000)
     (zsets (snd (Retry example_codec 1700000000000000001 (example_task ''a'' 0 1) ''a:''
        empty_broker)) ''delayed_queue'') = [False] \<and>
   map snd
     (zsets (snd (Retry example_codec 1700000000000000001 (example_task ''a'' 0 1) ''a:''
        empty_broker)) ''delayed_queue'') = [1700000000200000000] \<and>
   map snd
     (zsets (snd (Retry example_codec 0 (example_task ''a'' 36 1) ''a:''
        empty_broker)) ''delayed_queue'') = [- 4702848726509551616]"
  by (simp add: Retry_def Let_def shl_one_def wrap64_def Millisecond_def example_codec_def
      example_task_def lrem1_def zadd_def zadd_list_def empty_broker_def
      float64_of_int64_def bitlen.simps)

section \<open>Complete: the bounded history\<close>

lemma ltrim_list_tail100: "ltrim_list (- 100) (- 1) xs = drop (length xs - 100) xs"
  by (auto simp: ltrim_list_def Let_def nat_diff_distrib')

lemma lists_Complete:
  "lists (Complete r st) =
     (lists st)(''processing_queue'' := remove1 r (lists st ''processing_queue''),
                ''completed_queue'' := ltrim_list (- 100) (- 1) (lists st ''completed_queue'' @ [r]))"
  by (simp add: Complete_def ltrim_def rpush_def lrem1_def)

lemma drop_tail_drop:
  "k \<le> length ys - n \<Longrightarrow> drop (length (drop k ys) - n) (drop k ys) = drop (length ys - n) ys"
proof -
  assume "k \<le> length ys - n"
  then have "length ys - k - n + k = length ys - n" by arith
  then show ?thesis by simp
qed

lemma completed_fold_Complete:
  "length (lists st ''completed_queue'') \<le> 100 \<Longrightarrow>
   lists (fold Complete rs st) ''completed_queue'' =
     drop (length (lists st ''completed_queue'' @ rs) - 100) (lists st ''completed_queue'' @ rs)"
proof (induction rs arbitrary: st)
  case Nil
  then show ?case by simp
next
  case (Cons r rs)
  let ?c = "lists st ''completed_queue''"
  let ?k = "length (?c @ [r]) - 100"
  have c': "lists (Complete r st) ''completed_queue'' = drop ?k (?c @ [r])"
    by (simp add: lists_Complete ltrim_list_tail100)
  then have len: "length (lists (Complete r st) ''completed_queue'') \<le> 100"
    by simp
  have "lists (fold Complete (r # rs) st) ''completed_queue'' =
        drop (length (drop ?k (?c @ [r]) @ rs) - 100) (drop ?k (?c @ [r]) @ rs)"
    using Cons.IH [OF len] c' by simp
  also have "drop ?k (?c @ [r]) @ rs = drop ?k (?c @ r # rs)"
    by simp
  also have "drop (length (drop ?k (?c @ r # rs)) - 100) (drop ?k (?c @ r # rs)) =
             drop (length (?c @ r # rs) - 100) (?c @ r # rs)"
    by (rule drop_tail_drop) simp
  finally show ?case .
qed

text \<open>
  C7. If the completed list has at most 100 entries, then after any sequence of
  \<open>Complete\<close> calls it has at most 100 entries, and they are the trailing entries of the old
  list followed by the completed tokens in order. One \<open>Complete\<close> removes the first
  occurrence of its token from the in-flight list, appends the token to the completed
  list and then trims that list to its last 100 entries.
\<close>

theorem Complete_bound:
  "length (lists st ''completed_queue'') \<le> 100 \<Longrightarrow>
   length (lists (fold Complete rs st) ''completed_queue'') \<le> 100 \<and>
   lists (fold Complete rs st) ''completed_queue'' =
     drop (length (lists st ''completed_queue'' @ rs) - 100) (lists st ''completed_queue'' @ rs) \<and>
   lists (Complete r st) ''processing_queue'' = remove1 r (lists st ''processing_queue'') \<and>
   lists (Complete r st) ''completed_queue'' =
     ltrim_list (- 100) (- 1) (lists st ''completed_queue'' @ [r]) \<and>
   ltrim_list (- 100) (- 1) (lists st ''completed_queue'' @ [r]) =
     drop (length (lists st ''completed_queue'' @ [r]) - 100) (lists st ''completed_queue'' @ [r])"
proof -
  assume len: "length (lists st ''completed_queue'') \<le> 100"
  note f = completed_fold_Complete [OF len, of rs]
  have "length (lists (fold Complete rs st) ''completed_queue'') \<le> 100"
    unfolding f by simp
  with f show ?thesis
    by (simp add: lists_Complete ltrim_list_tail100)
qed

text \<open>A full history of 100 entries and two completions: the two oldest entries go.\<close>

theorem Complete_bound_witness:
  "length (lists (empty_broker\<lparr>lists := (lists empty_broker)
      (''completed_queue'' := replicate 100 ''old'',
       ''processing_queue'' := [''a'', ''b'', ''a''])\<rparr>) ''completed_queue'') \<le> 100 \<and>
   lists (fold Complete [''a'', ''b'']
     (empty_broker\<lparr>lists := (lists empty_broker)
      (''completed_queue'' := replicate 100 ''old'',
       ''processing_queue'' := [''a'', ''b'', ''a''])\<rparr>)) ''completed_queue''
     = replicate 98 ''old'' @ [''a'', ''b''] \<and>
   lists (fold Complete [''a'', ''b'']
     (empty_broker\<lparr>lists := (lists empty_broker)
      (''completed_queue'' := replicate 100 ''old'',
       ''processing_queue'' := [''a'', ''b'', ''a''])\<rparr>)) ''processing_queue'' = [''a'']"
proof -
  let ?st = "empty_broker\<lparr>lists := (lists empty_broker)
      (''completed_queue'' := replicate 100 ''old'',
       ''processing_queue'' := [''a'', ''b'', ''a''])\<rparr>"
  have len: "length (lists ?st ''completed_queue'') \<le> 100"
    by simp
  have d: "drop 2 (replicate 100 ''old'') = replicate 98 ''old''"
    by simp
  have p: "lists (fold Complete [''a'', ''b''] ?st) ''processing_queue'' = [''a'']"
    by (simp add: lists_Complete)
  show ?thesis
    using len p d Complete_bound [OF len, of "[''a'', ''b'']" "''a''"]
    by simp
qed

section \<open>A token that is not in flight\<close>

text \<open>
  C8, as the code has it. No operation looks at what \<open>LREM\<close> reports, so a token that is
  not in the in-flight list is not noticed. The in-flight list is left as it was and
  nothing is repaired; \<open>Ack\<close> changes nothing at all. The rest of each pipeline still
  runs: \<open>Complete\<close> appends the absent token to the completed list (and trims it), \<open>Retry\<close>
  adds the re-encoded task to the delay set, and \<open>Fail\<close> appends the serialized task to
  the dead-letter list.
\<close>

theorem absent_token_not_detected:
  "r \<notin> set (lists st ''processing_queue'') \<Longrightarrow>
   Ack r st = st \<and>
   lists (Complete r st) ''processing_queue'' = lists st ''processing_queue'' \<and>
   lists (Complete r st) ''completed_queue'' =
     ltrim_list (- 100) (- 1) (lists st ''completed_queue'' @ [r]) \<and>
   last (lists (Complete r st) ''completed_queue'') = r \<and>
   (0 \<le> wrap64 (RetryCount t + 1) \<and>
    marshal cd (t\<lparr>RetryCount := wrap64 (RetryCount t + 1)\<rparr>) = Some d \<longrightarrow>
      fst (Retry cd now t r st) = None \<and>
      lists (snd (Retry cd now t r st)) ''processing_queue'' = lists st ''processing_queue'' \<and>
      d \<in> fst ` set (zsets (snd (Retry cd now t r st)) ''delayed_queue'')) \<and>
   (marshal cd t = Some d' \<longrightarrow>
      fst (Fail cd t r st) = None \<and>
      lists (snd (Fail cd t r st)) ''processing_queue'' = lists st ''processing_queue'' \<and>
      lists (snd (Fail cd t r st)) ''dead_letter_queue'' = lists st ''dead_letter_queue'' @ [d'])"
proof -
  assume absent: "r \<notin> set (lists st ''processing_queue'')"
  then have idem: "remove1 r (lists st ''processing_queue'') = lists st ''processing_queue''"
    by (rule remove1_idem)
  have ack: "Ack r st = st"
    by (simp add: Ack_def lrem1_def idem)
  have c1: "lists (Complete r st) ''processing_queue'' = lists st ''processing_queue''"
    by (simp add: lists_Complete idem)
  have c2: "lists (Complete r st) ''completed_queue'' =
     ltrim_list (- 100) (- 1) (lists st ''completed_queue'' @ [r])"
    by (simp add: lists_Complete)
  have c3: "last (lists (Complete r st) ''completed_queue'') = r"
    unfolding c2 ltrim_list_tail100 by (simp add: last_drop)
  have rt: "fst (Retry cd now t r st) = None \<and>
      lists (snd (Retry cd now t r st)) ''processing_queue'' = lists st ''processing_queue'' \<and>
      d \<in> fst ` set (zsets (snd (Retry cd now t r st)) ''delayed_queue'')"
    if "0 \<le> wrap64 (RetryCount t + 1)"
      and "marshal cd (t\<lparr>RetryCount := wrap64 (RetryCount t + 1)\<rparr>) = Some d"
    using that
    by (simp add: Retry_def Let_def shl_one_def lrem1_def zadd_def zadd_list_def idem)
  have fl: "fst (Fail cd t r st) = None \<and>
      lists (snd (Fail cd t r st)) ''processing_queue'' = lists st ''processing_queue'' \<and>
      lists (snd (Fail cd t r st)) ''dead_letter_queue'' = lists st ''dead_letter_queue'' @ [d']"
    if "marshal cd t = Some d'"
    using that by (simp add: Fail_def lrem1_def rpush_def idem)
  from ack c1 c2 c3 rt fl show ?thesis by blast
qed

text \<open>The theorem on the empty broker, where no token is in flight.\<close>

theorem absent_token_not_detected_witness:
  "''x'' \<notin> set (lists empty_broker ''processing_queue'') \<and>
   Ack ''x'' empty_broker = empty_broker \<and>
   lists (Complete ''x'' empty_broker) ''processing_queue'' = [] \<and>
   last (lists (Complete ''x'' empty_broker) ''completed_queue'') = ''x''"
proof -
  have a: "''x'' \<notin> set (lists empty_broker ''processing_queue'')"
    by (simp add: empty_broker_def)
  have e: "lists empty_broker ''processing_queue'' = []"
    by (simp add: empty_broker_def)
  show ?thesis
    using a e
      absent_token_not_detected [OF a, of "example_task ''a'' 0 1" example_codec "''a:r''" 0 "''a:''"]
    by (simp add: ltrim_list_tail100 empty_broker_def)
qed

text \<open>The claim as stated fails: with \<open>x\<close> not in flight, \<open>Complete\<close> appends \<open>x\<close> to the
  completed list, and \<open>Retry\<close> (called as the repository's own test of \<open>Retry\<close> calls it, with
  a token that was never dequeued) adds the re-encoded task to the delay set.\<close>

theorem absent_token_counterexample:
  "''x'' \<notin> set (lists empty_broker ''processing_queue'') \<and>
   lists (Complete ''x'' empty_broker) ''completed_queue'' = [''x''] \<and>
   zsets (snd (Retry example_codec 0 (example_task ''a'' 0 1) ''x'' empty_broker)) ''delayed_queue''
     = [(''a:r'', 200000000)]"
  by (simp add: Complete_def ltrim_def ltrim_list_def rpush_def lrem1_def empty_broker_def
      Retry_def Let_def shl_one_def wrap64_def Millisecond_def example_codec_def
      example_task_def zadd_def zadd_list_def float64_of_int64_def bitlen.simps)

section \<open>The scheduler script\<close>













section \<open>The token bucket\<close>

lemma hashes_hset2:
  "hashes (hset2 key a n st) key ''tokens'' = Some a"
  "hashes (hset2 key a n st) key ''last_refill'' = Some n"
  by (simp_all add: hset2_def)

lemma Allow_fresh:
  "hashes st key ''tokens'' = None \<Longrightarrow>
   Allow key r b t st =
     (Inr (1 \<le> b), hset2 key (if 1 \<le> b then b - 1 else b) (unix_seconds t) st)"
  by (simp add: Allow_def allow_script_def Let_def)

lemma Allow_known:
  "hashes st key ''tokens'' = Some tk \<Longrightarrow> hashes st key ''last_refill'' = Some lr \<Longrightarrow>
   Allow key r b t st =
     (Inr (1 \<le> min b (tk + max 0 (unix_seconds t - lr) * r)),
      hset2 key (if 1 \<le> min b (tk + max 0 (unix_seconds t - lr) * r)
                 then min b (tk + max 0 (unix_seconds t - lr) * r) - 1
                 else min b (tk + max 0 (unix_seconds t - lr) * r)) (unix_seconds t) st)"
  by (simp add: Allow_def allow_script_def Let_def)

lemma allow_calls_Cons:
  "allow_calls key r b (t # ts) st =
     (fst (Allow key r b t st) # fst (allow_calls key r b ts (snd (Allow key r b t st))),
      snd (allow_calls key r b ts (snd (Allow key r b t st))))"
  by (simp split: prod.splits)

lemma allow_calls_same_second:
  "hashes st key ''tokens'' = Some tk \<Longrightarrow> hashes st key ''last_refill'' = Some s \<Longrightarrow>
   0 \<le> tk \<Longrightarrow> tk \<le> b \<Longrightarrow> \<forall>t \<in> set ts. unix_seconds t = s \<Longrightarrow>
   fst (allow_calls key r b ts st) =
     replicate (min (length ts) (nat tk)) (Inr True) @ replicate (length ts - nat tk) (Inr False) \<and>
   hashes (snd (allow_calls key r b ts st)) key ''tokens'' = Some (max 0 (tk - int (length ts))) \<and>
   hashes (snd (allow_calls key r b ts st)) key ''last_refill'' = Some s"
proof (induction ts arbitrary: st tk)
  case Nil
  then show ?case by simp
next
  case (Cons t ts)
  from Cons.prems have t: "unix_seconds t = s" and ts: "\<forall>t \<in> set ts. unix_seconds t = s"
    by simp_all
  let ?tk' = "if 1 \<le> tk then tk - 1 else tk"
  let ?st' = "hset2 key ?tk' s st"
  have A: "Allow key r b t st = (Inr (1 \<le> tk), ?st')"
    using Allow_known [OF Cons.prems(1,2), of r b t] Cons.prems(4) by (simp add: t)
  have tk': "0 \<le> ?tk'" "?tk' \<le> b" using Cons.prems(3,4) by auto
  have IH: "fst (allow_calls key r b ts ?st') =
     replicate (min (length ts) (nat ?tk')) (Inr True) @ replicate (length ts - nat ?tk') (Inr False) \<and>
   hashes (snd (allow_calls key r b ts ?st')) key ''tokens'' = Some (max 0 (?tk' - int (length ts))) \<and>
   hashes (snd (allow_calls key r b ts ?st')) key ''last_refill'' = Some s"
    by (rule Cons.IH [OF hashes_hset2(1) hashes_hset2(2) tk' ts])
  show ?case
  proof (cases "1 \<le> tk")
    case True
    then have n: "nat tk = Suc (nat (tk - 1))" by simp
    from True IH show ?thesis
      by (simp add: allow_calls_Cons A n algebra_simps del: allow_calls.simps(2))
  next
    case False
    with Cons.prems(3) have z: "tk = 0" by simp
    from IH show ?thesis
      by (simp add: allow_calls_Cons A z del: allow_calls.simps(2))
  qed
qed

text \<open>
  C5, as the code has it. The bucket's clock is \<open>time.Now().Unix()\<close>, whole seconds. For
  every key not yet observed, every rate \<open>r\<close> and every capacity \<open>b \<ge> 0\<close>: of \<open>b + 1\<close>
  consecutive \<open>Allow\<close> calls that all fall in the same clock second, the first \<open>b\<close> return
  allowed and the last returns denied; and the next call made in any later clock second
  returns allowed, provided \<open>r \<ge> 1\<close> and \<open>b \<ge> 1\<close>. Denial is the boolean \<open>False\<close>, not an
  error.
\<close>

theorem Allow_burst_shape:
  "hashes st key ''tokens'' = None \<Longrightarrow> 0 \<le> b \<Longrightarrow> length ts = nat b + 1 \<Longrightarrow>
   \<forall>t \<in> set ts. unix_seconds t = s \<Longrightarrow>
   fst (allow_calls key r b ts st) = replicate (nat b) (Inr True) @ [Inr False] \<and>
   (1 \<le> b \<and> 1 \<le> r \<and> s < unix_seconds t' \<longrightarrow>
      fst (Allow key r b t' (snd (allow_calls key r b ts st))) = Inr True)"
proof -
  assume fresh: "hashes st key ''tokens'' = None" and b: "0 \<le> b"
    and len: "length ts = nat b + 1" and sec: "\<forall>t \<in> set ts. unix_seconds t = s"
  from len obtain t0 rest where ts: "ts = t0 # rest" and lrest: "length rest = nat b"
    by (cases ts) simp_all
  from sec ts have t0: "unix_seconds t0 = s" and rest: "\<forall>t \<in> set rest. unix_seconds t = s"
    by simp_all
  let ?tk = "if 1 \<le> b then b - 1 else b"
  let ?st1 = "hset2 key ?tk s st"
  have A: "Allow key r b t0 st = (Inr (1 \<le> b), ?st1)"
    using Allow_fresh [OF fresh, of r b t0] by (simp only: t0)
  have tk: "0 \<le> ?tk" "?tk \<le> b" using b by auto
  have S: "fst (allow_calls key r b rest ?st1) =
     replicate (min (length rest) (nat ?tk)) (Inr True) @ replicate (length rest - nat ?tk) (Inr False) \<and>
   hashes (snd (allow_calls key r b rest ?st1)) key ''tokens'' = Some (max 0 (?tk - int (length rest))) \<and>
   hashes (snd (allow_calls key r b rest ?st1)) key ''last_refill'' = Some s"
    by (rule allow_calls_same_second [OF hashes_hset2(1) hashes_hset2(2) tk rest])
  have res: "fst (allow_calls key r b ts st) = replicate (nat b) (Inr True) @ [Inr False]"
  proof (cases "1 \<le> b")
    case True
    then have "nat b = Suc (nat (b - 1))" by simp
    with True S lrest show ?thesis
      by (simp add: ts allow_calls_Cons A del: allow_calls.simps(2))
  next
    case False
    with b have b0: "b = 0" by simp
    with lrest have "rest = []" by simp
    then show ?thesis
      using A by (simp add: ts b0)
  qed
  have fin: "hashes (snd (allow_calls key r b ts st)) key ''tokens'' = Some 0 \<and>
             hashes (snd (allow_calls key r b ts st)) key ''last_refill'' = Some s"
    using S lrest b by (auto simp: ts allow_calls_Cons A simp del: allow_calls.simps(2))
  have later: "fst (Allow key r b t' (snd (allow_calls key r b ts st))) = Inr True"
    if "1 \<le> b" "1 \<le> r" "s < unix_seconds t'"
  proof -
    from that have "1 \<le> unix_seconds t' - s" by simp
    with that(2) have "1 * 1 \<le> (unix_seconds t' - s) * r"
      by (intro mult_mono) simp_all
    then have "1 \<le> min b (0 + max 0 (unix_seconds t' - s) * r)"
      using that(1,3) by simp
    then show ?thesis
      using fin by (simp add: Allow_known)
  qed
  from res later show ?thesis by blast
qed

text \<open>Scenario S5: rate 1, burst 1; two calls in one second, a third 1.1 s after the
  first.\<close>

theorem Allow_burst_shape_witness:
  "hashes empty_broker ''ratelimit:test'' ''tokens'' = None \<and>
   fst (allow_calls ''ratelimit:test'' 1 1 [0, 500000000] empty_broker)
     = [Inr True, Inr False] \<and>
   fst (Allow ''ratelimit:test'' 1 1 1100000000
         (snd (allow_calls ''ratelimit:test'' 1 1 [0, 500000000] empty_broker))) = Inr True"
proof -
  have fresh: "hashes empty_broker ''ratelimit:test'' ''tokens'' = None"
    by (simp add: empty_broker_def)
  have sec: "\<forall>t \<in> set [0, 500000000]. unix_seconds t = 0"
    by (simp add: unix_seconds_def)
  show ?thesis
    using fresh
      Allow_burst_shape [OF fresh, of 1 "[0, 500000000]" 0 1 1100000000, OF _ _ sec]
    by (simp add: unix_seconds_def)
qed

text \<open>The claim as stated fails in both directions. With rate 1 and burst 1, two calls
  0.2 s apart that straddle a second boundary are both allowed. With rate 2 and burst 1,
  the call made \<open>1/r\<close> = 0.5 s after the burst is denied.\<close>

theorem Allow_burst_shape_counterexample:
  "fst (allow_calls ''k'' 1 1 [900000000, 1100000000] empty_broker) = [Inr True, Inr True] \<and>
   fst (allow_calls ''k'' 2 1 [0, 0, 500000000] empty_broker)
     = [Inr True, Inr False, Inr False]"
  by (simp add: Allow_def allow_script_def hset2_def unix_seconds_def empty_broker_def Let_def)

section \<open>The worker's retry policy\<close>





section \<open>The key check and the CORS wrapper\<close>

lemma Status_header_set [simp]: "Status (header_set k v w) = Status w"
  by (simp add: header_set_def)

lemma Status_cors_headers [simp]: "Status (cors_headers w) = Status w"
  by (simp add: cors_headers_def)

lemma Status_http_Error: "Status w = 0 \<Longrightarrow> 0 < code \<Longrightarrow> Status (http_Error msg code w) = code"
  by (simp add: http_Error_def Write_def WriteHeader_def Let_def)

lemma Status_Write: "Status w = 0 \<Longrightarrow> Status (Write s w) = 200"
  by (simp add: Write_def WriteHeader_def Let_def)

lemma enqueueHandler_status:
  "Status w = 0 \<Longrightarrow> Status (fst (enqueueHandler env w r st)) \<in> {200, 400, 405, 500}"
  by (auto simp: enqueueHandler_def Status_http_Error Status_Write
      split: option.splits prod.splits)

lemma resultHandler_status:
  "Status w = 0 \<Longrightarrow> Status (fst (resultHandler env w r st)) \<in> {200, 400, 404, 500}"
  by (auto simp: resultHandler_def Let_def Status_http_Error Status_Write split: sum.splits)

lemma scheduleHandler_status:
  "Status w = 0 \<Longrightarrow> Status (fst (scheduleHandler env w r st)) \<in> {200, 400, 405}"
  by (auto simp: scheduleHandler_def Status_http_Error Status_Write
      split: option.splits sum.splits)

lemma statsHandler_status:
  "Status w = 0 \<Longrightarrow> Status (fst (statsHandler env w r st)) \<in> {200, 405, 500}"
  by (auto simp: statsHandler_def Let_def Status_http_Error Status_Write split: sum.splits)

lemma tasksHandler_status:
  "Status w = 0 \<Longrightarrow> Status (fst (tasksHandler env w r st)) \<in> {200, 400, 405, 500}"
  by (auto simp: tasksHandler_def Let_def Status_http_Error Status_Write split: sum.splits)

lemma preflight:
  "Method r = ''OPTIONS'' \<Longrightarrow>
   enableCORS (authMiddleware next key) w r st = (WriteHeader 200 (cors_headers w), st)"
  by (simp add: enableCORS_def)

lemma unauthorized:
  "Method r \<noteq> ''OPTIONS'' \<Longrightarrow> key \<noteq> [] \<Longrightarrow> header_Get r \<noteq> key \<Longrightarrow>
   enableCORS (authMiddleware next key) w r st =
     (http_Error ''Unauthorized'' 401 (cors_headers w), st)"
  by (simp add: enableCORS_def authMiddleware_def)

lemma authorized:
  "Method r \<noteq> ''OPTIONS'' \<Longrightarrow> key = [] \<or> header_Get r = key \<Longrightarrow>
   enableCORS (authMiddleware next key) w r st = next (cors_headers w) r st"
  by (auto simp: enableCORS_def authMiddleware_def Let_def)

lemma endpoint_status:
  assumes "endpoint env path = Some h" and "Status w = 0"
  shows "Status (fst (h w r st)) \<noteq> 401"
proof -
  from assms(1) consider "h = enqueueHandler env" | "h = resultHandler env"
    | "h = scheduleHandler env" | "h = statsHandler env" | "h = tasksHandler env"
    unfolding endpoint_def by (metis option.inject option.distinct(1))
  then show ?thesis
  proof cases
    case 1
    with enqueueHandler_status [OF assms(2), of env r st] show ?thesis by auto
  next
    case 2
    with resultHandler_status [OF assms(2), of env r st] show ?thesis by auto
  next
    case 3
    with scheduleHandler_status [OF assms(2), of env r st] show ?thesis by auto
  next
    case 4
    with statsHandler_status [OF assms(2), of env r st] show ?thesis by auto
  next
    case 5
    with tasksHandler_status [OF assms(2), of env r st] show ?thesis by auto
  qed
qed


text \<open>
  C9. For every request to a route: an \<open>OPTIONS\<close> request is answered 200 by the CORS
  wrapper, which returns before the key check runs, whatever the configured key and the
  handler. For any other method, when the configured key is non-empty and the
  \<open>X-API-Key\<close> header differs from it (a missing header reads as the empty string and so
  differs), the answer is 401; the answer is written by the key check alone, the handler
  does not run and the broker state is unchanged. When the key matches or no key is
  configured, the request goes to the handler. With no key configured no request is
  answered 401, on any path; and a \<open>POST /enqueue\<close> with an empty body that passes the key
  check is answered 400.
\<close>

theorem api_key_authentication:
  "(Method r = ''OPTIONS'' \<longrightarrow>
      enableCORS (authMiddleware next key) w r st = (WriteHeader 200 (cors_headers w), st) \<and>
      Status (fst (enableCORS (authMiddleware next key) new_response r st)) = 200) \<and>
   (Method r \<noteq> ''OPTIONS'' \<and> key \<noteq> [] \<and> header_Get r \<noteq> key \<longrightarrow>
      enableCORS (authMiddleware next key) w r st =
        (http_Error ''Unauthorized'' 401 (cors_headers w), st) \<and>
      Status (fst (enableCORS (authMiddleware next key) new_response r st)) = 401) \<and>
   (key \<noteq> [] \<and> XAPIKey r = None \<longrightarrow> header_Get r \<noteq> key) \<and>
   (Method r \<noteq> ''OPTIONS'' \<and> (key = [] \<or> header_Get r = key) \<longrightarrow>
      enableCORS (authMiddleware next key) w r st = next (cors_headers w) r st) \<and>
   Status (fst (setupRouter env [] path new_response r st)) \<noteq> 401 \<and>
   (Method r = ''POST'' \<and> Body r = [] \<and> (key = [] \<or> header_Get r = key) \<longrightarrow>
      Status (fst (setupRouter env key ''/enqueue'' new_response r st)) = 400)"
proof -
  have sn: "Status new_response = 0"
    by (simp add: new_response_def)
  then have s0: "Status (cors_headers new_response) = 0"
    by simp
  have opt: "Status (fst (enableCORS (authMiddleware next key) new_response r st)) = 200"
    if "Method r = ''OPTIONS''"
    using that by (simp add: preflight WriteHeader_def sn)
  have una: "Status (fst (enableCORS (authMiddleware next key) new_response r st)) = 401"
    if "Method r \<noteq> ''OPTIONS''" "key \<noteq> []" "header_Get r \<noteq> key"
    using that by (simp add: unauthorized Status_http_Error sn)
  have miss: "header_Get r \<noteq> key" if "key \<noteq> []" "XAPIKey r = None"
    using that by (auto simp: header_Get_def)
  have open_: "Status (fst (setupRouter env [] path new_response r st)) \<noteq> 401"
  proof (cases "endpoint env path")
    case None
    then show ?thesis
      by (simp add: setupRouter_def Status_http_Error new_response_def)
  next
    case (Some h)
    show ?thesis
    proof (cases "Method r = ''OPTIONS''")
      case True
      then show ?thesis
        by (simp add: setupRouter_def Some preflight WriteHeader_def sn)
    next
      case False
      then have "setupRouter env [] path new_response r st = h (cors_headers new_response) r st"
        by (simp add: setupRouter_def Some authorized)
      with endpoint_status [OF Some s0, of r st] show ?thesis by simp
    qed
  qed
  have empty_body: "Status (fst (setupRouter env key ''/enqueue'' new_response r st)) = 400"
    if "Method r = ''POST''" "Body r = []" "key = [] \<or> header_Get r = key"
  proof -
    from that(1) have no: "Method r \<noteq> ''OPTIONS''" by simp
    have "setupRouter env key ''/enqueue'' new_response r st =
          enqueueHandler env (cors_headers new_response) r st"
      using authorized [OF no that(3)] by (simp add: setupRouter_def endpoint_def)
    then show ?thesis
      using that(1,2) by (simp add: enqueueHandler_def Decode_def Status_http_Error sn)
  qed
  from preflight [of r "next" key w st] unauthorized [of r key "next" w st]
    authorized [of r key "next" w st] opt una miss open_ empty_body
  show ?thesis by blast
qed

text \<open>Scenario S6, the table of the repository's own test of the middleware: no key,
  a wrong key, the right key with an empty body, and no key configured; and a preflight.\<close>

theorem api_key_authentication_witness:
  "Status (fst (setupRouter example_env ''secret-key'' ''/enqueue'' new_response
      \<lparr>Method = ''POST'', XAPIKey = None, Query = (\<lambda>_. []), Body = []\<rparr> empty_broker)) = 401 \<and>
   Status (fst (setupRouter example_env ''secret-key'' ''/enqueue'' new_response
      \<lparr>Method = ''POST'', XAPIKey = Some ''wrong-key'', Query = (\<lambda>_. []), Body = []\<rparr>
      empty_broker)) = 401 \<and>
   Status (fst (setupRouter example_env ''secret-key'' ''/enqueue'' new_response
      \<lparr>Method = ''POST'', XAPIKey = Some ''secret-key'', Query = (\<lambda>_. []), Body = []\<rparr>
      empty_broker)) = 400 \<and>
   Status (fst (setupRouter example_env [] ''/enqueue'' new_response
      \<lparr>Method = ''POST'', XAPIKey = None, Query = (\<lambda>_. []), Body = []\<rparr> empty_broker)) = 400 \<and>
   Status (fst (setupRouter example_env ''secret-key'' ''/enqueue'' new_response
      \<lparr>Method = ''OPTIONS'', XAPIKey = None, Query = (\<lambda>_. []), Body = []\<rparr> empty_broker)) = 200"
proof -
  let ?r = "\<lparr>Method = ''POST'', XAPIKey = None, Query = (\<lambda>_. []), Body = []\<rparr>"
  have ep: "endpoint example_env ''/enqueue'' = Some (enqueueHandler example_env)"
    by (simp add: endpoint_def)
  show ?thesis
    using api_key_authentication [of ?r "enqueueHandler example_env" "''secret-key''"
        new_response empty_broker example_env "''/enqueue''"]
      api_key_authentication [of "?r\<lparr>XAPIKey := Some ''secret-key''\<rparr>"
        "enqueueHandler example_env" "''secret-key''" new_response empty_broker example_env
        "''/enqueue''"]
    by (simp add: setupRouter_def ep header_Get_def enableCORS_def authMiddleware_def
        enqueueHandler_def Decode_def Status_http_Error WriteHeader_def new_response_def)
qed

section \<open>The priority of a request that names none\<close>

text \<open>
  C10. Take a \<open>POST /enqueue\<close> whose body is a JSON object without a \<open>priority\<close> field and
  whose task serializes to \<open>d\<close>. The task that the handler builds has priority 0, which
  is Low, and the handler's \<open>Enqueue\<close> appends \<open>d\<close> to \<open>queue:low\<close>, not to \<open>queue:default\<close>.
  In general \<open>Enqueue\<close> appends to the queue that the priority selects, and that queue
  is \<open>queue:default\<close> exactly when the priority is neither 2 nor 0.
\<close>

theorem omitted_priority_is_low:
  "Method r = ''POST'' \<Longrightarrow> Body r \<noteq> [] \<Longrightarrow> env_read_object env (Body r) = Some f \<Longrightarrow>
   priority_field f = None \<Longrightarrow> Decode (env_read_object env) (Body r) = Some req \<Longrightarrow>
   marshal (env_codec env) (task_of_req env req) = Some d \<Longrightarrow>
   Priority (task_of_req env req) = 0 \<and>
   Priority (task_of_req env req) = PriorityLow \<and>
   enqueueHandler env w r st =
     (Write (''Task enqueued: '' @ env_uuid env @ [CHR 0x0A]) w,
      st\<lparr>lists := (lists st)(''queue:low'' := lists st ''queue:low'' @ [d])\<rparr>) \<and>
   (marshal cd t = Some d' \<longrightarrow>
      Enqueue cd t st' =
        (None, st'\<lparr>lists := (lists st')(queueName_of (Priority t) :=
                  lists st' (queueName_of (Priority t)) @ [d'])\<rparr>)) \<and>
   (queueName_of p = ''queue:default'' \<longleftrightarrow> p \<noteq> 2 \<and> p \<noteq> 0) \<and>
   queueName_of 2 = ''queue:high'' \<and> queueName_of 0 = ''queue:low''"
proof -
  assume m: "Method r = ''POST''" and b: "Body r \<noteq> []"
    and f: "env_read_object env (Body r) = Some f" and pf: "priority_field f = None"
    and dec: "Decode (env_read_object env) (Body r) = Some req"
    and ms: "marshal (env_codec env) (task_of_req env req) = Some d"
  from dec b f pf have rp: "req_Priority req = 0"
    by (auto simp: Decode_def)
  then have p0: "Priority (task_of_req env req) = 0"
    by (simp add: task_of_req_def)
  have q: "queueName_of (Priority (task_of_req env req)) = ''queue:low''"
    by (simp add: p0 queueName_of_def PriorityHigh_def PriorityLow_def)
  have h: "enqueueHandler env w r st =
     (Write (''Task enqueued: '' @ env_uuid env @ [CHR 0x0A]) w,
      st\<lparr>lists := (lists st)(''queue:low'' := lists st ''queue:low'' @ [d])\<rparr>)"
    using m dec ms by (simp add: enqueueHandler_def Enqueue_def q rpush_def)
  have e: "Enqueue cd t st' =
        (None, st'\<lparr>lists := (lists st')(queueName_of (Priority t) :=
                  lists st' (queueName_of (Priority t)) @ [d'])\<rparr>)"
    if "marshal cd t = Some d'"
    using that by (simp add: Enqueue_def rpush_def)
  have qd: "queueName_of p = ''queue:default'' \<longleftrightarrow> p \<noteq> 2 \<and> p \<noteq> 0"
    by (simp add: queueName_of_def PriorityHigh_def PriorityLow_def)
  have q2: "queueName_of 2 = ''queue:high''" and q0: "queueName_of 0 = ''queue:low''"
    by (simp_all add: queueName_of_def PriorityHigh_def PriorityLow_def)
  from p0 h e qd q2 q0 show ?thesis
    by (simp add: PriorityLow_def)
qed

text \<open>The body \<open>{}\<close>, an object with no fields at all.\<close>

theorem omitted_priority_is_low_witness:
  "Decode (env_read_object example_env) ''{}''
     = Some \<lparr>req_Spec = [], req_Type = [], req_Payload = ''null'', req_Priority = 0\<rparr> \<and>
   Status (fst (enqueueHandler example_env new_response
      \<lparr>Method = ''POST'', XAPIKey = None, Query = (\<lambda>_. []), Body = ''{}''\<rparr> empty_broker)) = 200 \<and>
   lists (snd (enqueueHandler example_env new_response
      \<lparr>Method = ''POST'', XAPIKey = None, Query = (\<lambda>_. []), Body = ''{}''\<rparr> empty_broker))
      ''queue:low'' = [''u1:''] \<and>
   lists (snd (enqueueHandler example_env new_response
      \<lparr>Method = ''POST'', XAPIKey = None, Query = (\<lambda>_. []), Body = ''{}''\<rparr> empty_broker))
      ''queue:default'' = []"
proof -
  let ?r = "\<lparr>Method = ''POST'', XAPIKey = None, Query = (\<lambda>_. []), Body = ''{}''\<rparr>"
  let ?f = "\<lparr>spec_field = None, type_field = None, payload_field = None, priority_field = None\<rparr>"
  let ?req = "\<lparr>req_Spec = [], req_Type = [], req_Payload = ''null'', req_Priority = 0\<rparr>"
  have m: "Method ?r = ''POST''" and b: "Body ?r \<noteq> []"
    by simp_all
  have f: "env_read_object example_env (Body ?r) = Some ?f"
    by (simp add: example_env_def)
  have pf: "priority_field ?f = None"
    by simp
  have dec: "Decode (env_read_object example_env) (Body ?r) = Some ?req"
    by (simp add: Decode_def example_env_def)
  have ms: "marshal (env_codec example_env) (task_of_req example_env ?req) = Some ''u1:''"
    by (simp add: example_env_def example_codec_def task_of_req_def)
  show ?thesis
    using dec
      omitted_priority_is_low [OF m b f pf dec ms, of new_response empty_broker
        example_codec "example_task ''a'' 0 1" "''a:''" empty_broker 1]
    by (simp add: Status_Write new_response_def empty_broker_def)
qed

end
